theory Spec2Isabelle
  imports Main "HOL-Library.Word"
begin

section \<open>Go strings\<close>

text \<open>
  A Go string is a sequence of bytes; it is modelled as a \<open>string\<close> (a list of
  8-bit characters). The helpers below are the functions of Go's \<open>strings\<close> package
  that \<open>net/url\<close> and \<open>path\<close> call, at the separators they are called with.
\<close>

definition byte :: "char \<Rightarrow> nat" where
  "byte c = of_char c"

definition HasPrefix :: "string \<Rightarrow> string \<Rightarrow> bool" where
  "HasPrefix s p = (take (length p) s = p)"

definition HasSuffix :: "string \<Rightarrow> string \<Rightarrow> bool" where
  "HasSuffix s p = (length p \<le> length s \<and> drop (length s - length p) s = p)"

text \<open>\<open>strings.Cut(s, sep)\<close> for a one-byte separator: the text before the first
  separator, the text after it, and whether the separator was found.\<close>

definition Cut :: "string \<Rightarrow> char \<Rightarrow> string \<times> string \<times> bool" where
  "Cut s sep = (takeWhile (\<lambda>c. c \<noteq> sep) s, drop 1 (dropWhile (\<lambda>c. c \<noteq> sep) s), sep \<in> set s)"

definition Contains :: "string \<Rightarrow> char \<Rightarrow> bool" where
  "Contains s c = (c \<in> set s)"

definition Count :: "string \<Rightarrow> char \<Rightarrow> nat" where
  "Count s c = length (filter (\<lambda>x. x = c) s)"

text \<open>\<open>strings.Index(s, sub)\<close>: the position of the first occurrence, \<open>None\<close> for -1.\<close>

fun Index :: "string \<Rightarrow> string \<Rightarrow> nat option" where
  "Index [] sub = (if sub = [] then Some 0 else None)"
| "Index (c # s) sub =
     (if HasPrefix (c # s) sub then Some 0
      else (case Index s sub of None \<Rightarrow> None | Some i \<Rightarrow> Some (Suc i)))"

text \<open>\<open>strings.LastIndex(s, sep)\<close> for a one-byte separator.\<close>

fun LastIndex :: "string \<Rightarrow> char \<Rightarrow> nat option" where
  "LastIndex [] sep = None"
| "LastIndex (c # s) sep =
     (case LastIndex s sep of
        Some i \<Rightarrow> Some (Suc i)
      | None \<Rightarrow> (if c = sep then Some 0 else None))"

text \<open>\<open>strings.ToLower\<close> on the bytes a scheme can hold (ASCII letters, digits,
  \<open>+\<close>, \<open>-\<close>, \<open>.\<close>): only \<open>A\<close>..\<open>Z\<close> change.\<close>

definition lower :: "char \<Rightarrow> char" where
  "lower c = (if 65 \<le> byte c \<and> byte c \<le> 90 then char_of (byte c + 32) else c)"

definition ToLower :: "string \<Rightarrow> string" where
  "ToLower s = map lower s"

section \<open>Go's net/url\<close>

text \<open>
  The client stores a \<open>url.URL\<close> and normalises its endpoint through
  \<open>url.Parse\<close>, \<open>Hostname\<close>, \<open>Port\<close> and \<open>String\<close>. These are functions of the Go
  standard library; they are modelled here function by function after
  \<open>net/url/url.go\<close> (Go 1.19 to 1.23: \<open>OmitHost\<close> present, hosts checked only by
  \<open>parseHost\<close>).
\<close>

record Userinfo =
  username :: string
  password :: string
  passwordSet :: bool

record URL =
  Scheme :: string
  Opaque :: string
  User :: "Userinfo option"
  Host :: string
  Path :: string
  RawPath :: string
  OmitHost :: bool
  ForceQuery :: bool
  RawQuery :: string
  Fragment :: string
  RawFragment :: string

definition emptyURL :: URL where
  "emptyURL = \<lparr>Scheme = [], Opaque = [], User = None, Host = [], Path = [], RawPath = [],
     OmitHost = False, ForceQuery = False, RawQuery = [], Fragment = [], RawFragment = []\<rparr>"

datatype encoding =
  encodePath | encodePathSegment | encodeHost | encodeZone | encodeUserPassword
  | encodeQueryComponent | encodeFragment

datatype url_error =
  EscapeError string
  | InvalidHostError string
  | InvalidControlCharacter
  | EmptyURL
  | InvalidURIForRequest
  | MissingProtocolScheme
  | FirstPathSegmentColon
  | MissingBracket
  | InvalidPort string
  | InvalidUserinfo

definition isAlnum :: "char \<Rightarrow> bool" where
  "isAlnum c = (97 \<le> byte c \<and> byte c \<le> 122 \<or> 65 \<le> byte c \<and> byte c \<le> 90
               \<or> 48 \<le> byte c \<and> byte c \<le> 57)"

definition shouldEscape :: "char \<Rightarrow> encoding \<Rightarrow> bool" where
  "shouldEscape c mode =
     (if isAlnum c then False
      else if (mode = encodeHost \<or> mode = encodeZone)
              \<and> c \<in> set (''!$&()*+,;=:[]<>'' @ [CHR 0x27, CHR 0x22]) then False
      else if c \<in> set ''-_.~'' then False
      else if c \<in> set ''$&+,/:;=?@'' \<and> mode = encodePath then c = CHR ''?''
      else if c \<in> set ''$&+,/:;=?@'' \<and> mode = encodePathSegment
        then c = CHR ''/'' \<or> c = CHR '';'' \<or> c = CHR '','' \<or> c = CHR ''?''
      else if c \<in> set ''$&+,/:;=?@'' \<and> mode = encodeUserPassword
        then c = CHR ''@'' \<or> c = CHR ''/'' \<or> c = CHR ''?'' \<or> c = CHR '':''
      else if c \<in> set ''$&+,/:;=?@'' \<and> mode = encodeQueryComponent then True
      else if c \<in> set ''$&+,/:;=?@'' \<and> mode = encodeFragment then False
      else if mode = encodeFragment \<and> c \<in> set ''!()*'' then False
      else True)"

definition ishex :: "char \<Rightarrow> bool" where
  "ishex c = (48 \<le> byte c \<and> byte c \<le> 57 \<or> 97 \<le> byte c \<and> byte c \<le> 102
             \<or> 65 \<le> byte c \<and> byte c \<le> 70)"

definition unhex :: "char \<Rightarrow> nat" where
  "unhex c =
     (if 48 \<le> byte c \<and> byte c \<le> 57 then byte c - 48
      else if 97 \<le> byte c \<and> byte c \<le> 102 then byte c - 97 + 10
      else if 65 \<le> byte c \<and> byte c \<le> 70 then byte c - 65 + 10
      else 0)"

definition upperhex :: "nat \<Rightarrow> char" where
  "upperhex n = ''0123456789ABCDEF'' ! (n mod 16)"

text \<open>The first loop of \<open>unescape\<close>: it checks every \<open>%\<close> triple and, for a host,
  every plain byte, and returns the first error.\<close>

fun unescape_check :: "string \<Rightarrow> encoding \<Rightarrow> url_error option" where
  "unescape_check [] mode = None"
| "unescape_check (c # s) mode =
     (if c = CHR ''%'' then
        (case s of
           h1 # h2 # s' \<Rightarrow>
             if \<not> ishex h1 \<or> \<not> ishex h2 then Some (EscapeError (take 3 (c # s)))
             else if mode = encodeHost \<and> unhex h1 < 8 \<and> [c, h1, h2] \<noteq> ''%25''
               then Some (EscapeError [c, h1, h2])
             else if mode = encodeZone \<and> [c, h1, h2] \<noteq> ''%25''
                     \<and> char_of (unhex h1 * 16 + unhex h2) \<noteq> CHR '' ''
                     \<and> shouldEscape (char_of (unhex h1 * 16 + unhex h2)) encodeHost
               then Some (EscapeError [c, h1, h2])
             else unescape_check s' mode
         | _ \<Rightarrow> Some (EscapeError (take 3 (c # s))))
      else if (mode = encodeHost \<or> mode = encodeZone) \<and> byte c < 128
              \<and> shouldEscape c encodeHost
        then Some (InvalidHostError [c])
      else unescape_check s mode)"

text \<open>The second loop of \<open>unescape\<close>, run on a checked string: it decodes the triples
  and, in a query component, turns \<open>+\<close> into a space.\<close>

fun unescape_decode :: "string \<Rightarrow> encoding \<Rightarrow> string" where
  "unescape_decode (c # h1 # h2 # s) mode =
     (if c = CHR ''%'' then char_of (unhex h1 * 16 + unhex h2) # unescape_decode s mode
      else (if c = CHR ''+'' \<and> mode = encodeQueryComponent then CHR '' '' else c)
           # unescape_decode (h1 # h2 # s) mode)"
| "unescape_decode (c # s) mode =
     (if c = CHR ''+'' \<and> mode = encodeQueryComponent then CHR '' '' else c)
     # unescape_decode s mode"
| "unescape_decode [] mode = []"

definition unescape :: "string \<Rightarrow> encoding \<Rightarrow> url_error + string" where
  "unescape s mode =
     (case unescape_check s mode of
        Some e \<Rightarrow> Inl e
      | None \<Rightarrow> Inr (unescape_decode s mode))"

fun escape :: "string \<Rightarrow> encoding \<Rightarrow> string" where
  "escape [] mode = []"
| "escape (c # s) mode =
     (if c = CHR '' '' \<and> mode = encodeQueryComponent then CHR ''+'' # escape s mode
      else if shouldEscape c mode
        then CHR ''%'' # upperhex (byte c div 16) # upperhex (byte c mod 16) # escape s mode
      else c # escape s mode)"

definition validEncoded :: "string \<Rightarrow> encoding \<Rightarrow> bool" where
  "validEncoded s mode =
     list_all (\<lambda>c. c \<in> set (''!$&()*+,;=:@[]%'' @ [CHR 0x27]) \<or> \<not> shouldEscape c mode) s"

definition validOptionalPort :: "string \<Rightarrow> bool" where
  "validOptionalPort port =
     (case port of
        [] \<Rightarrow> True
      | c # ds \<Rightarrow> c = CHR '':'' \<and> list_all (\<lambda>b. 48 \<le> byte b \<and> byte b \<le> 57) ds)"

definition validUserinfo :: "string \<Rightarrow> bool" where
  "validUserinfo s =
     list_all (\<lambda>r. isAlnum r \<or> r \<in> set (''-._:~!$&()*+,;=%@'' @ [CHR 0x27])) s"

definition stringContainsCTLByte :: "string \<Rightarrow> bool" where
  "stringContainsCTLByte s = list_ex (\<lambda>b. byte b < 32 \<or> byte b = 127) s"

text \<open>\<open>getScheme\<close> scans for the first colon; \<open>i = 0\<close> is the first call
  (\<open>first = True\<close>), \<open>acc\<close> holds the bytes read so far.\<close>

fun getScheme_loop :: "string \<Rightarrow> string \<Rightarrow> string \<Rightarrow> bool \<Rightarrow> url_error + (string \<times> string)" where
  "getScheme_loop rawURL acc [] first = Inr ([], rawURL)"
| "getScheme_loop rawURL acc (c # s) first =
     (if 97 \<le> byte c \<and> byte c \<le> 122 \<or> 65 \<le> byte c \<and> byte c \<le> 90
        then getScheme_loop rawURL (acc @ [c]) s False
      else if 48 \<le> byte c \<and> byte c \<le> 57 \<or> c = CHR ''+'' \<or> c = CHR ''-'' \<or> c = CHR ''.''
        then (if first then Inr ([], rawURL) else getScheme_loop rawURL (acc @ [c]) s False)
      else if c = CHR '':''
        then (if first then Inl MissingProtocolScheme else Inr (acc, s))
      else Inr ([], rawURL))"

definition getScheme :: "string \<Rightarrow> url_error + (string \<times> string)" where
  "getScheme rawURL = getScheme_loop rawURL [] rawURL True"

definition parseHost :: "string \<Rightarrow> url_error + string" where
  "parseHost host =
     (if HasPrefix host ''[''
      then (case LastIndex host (CHR '']'') of
              None \<Rightarrow> Inl MissingBracket
            | Some i \<Rightarrow>
                if \<not> validOptionalPort (drop (i + 1) host)
                  then Inl (InvalidPort (drop (i + 1) host))
                else (case Index (take i host) ''%25'' of
                        Some zone \<Rightarrow>
                          (case unescape (take zone host) encodeHost of
                             Inl e \<Rightarrow> Inl e
                           | Inr host1 \<Rightarrow>
                          (case unescape (drop zone (take i host)) encodeZone of
                             Inl e \<Rightarrow> Inl e
                           | Inr host2 \<Rightarrow>
                          (case unescape (drop i host) encodeHost of
                             Inl e \<Rightarrow> Inl e
                           | Inr host3 \<Rightarrow> Inr (host1 @ host2 @ host3))))
                      | None \<Rightarrow> unescape host encodeHost))
      else (case LastIndex host (CHR '':'') of
              Some i \<Rightarrow>
                if \<not> validOptionalPort (drop i host) then Inl (InvalidPort (drop i host))
                else unescape host encodeHost
            | None \<Rightarrow> unescape host encodeHost))"

definition parseAuthority :: "string \<Rightarrow> url_error + (Userinfo option \<times> string)" where
  "parseAuthority authority =
     (case LastIndex authority (CHR ''@'') of
        None \<Rightarrow>
          (case parseHost authority of Inl e \<Rightarrow> Inl e | Inr host \<Rightarrow> Inr (None, host))
      | Some i \<Rightarrow>
          (case parseHost (drop (i + 1) authority) of
             Inl e \<Rightarrow> Inl e
           | Inr host \<Rightarrow>
               let userinfo = take i authority in
               if \<not> validUserinfo userinfo then Inl InvalidUserinfo
               else if \<not> Contains userinfo (CHR '':'') then
                 (case unescape userinfo encodeUserPassword of
                    Inl e \<Rightarrow> Inl e
                  | Inr u \<Rightarrow>
                      Inr (Some \<lparr>username = u, password = [], passwordSet = False\<rparr>, host))
               else
                 (case Cut userinfo (CHR '':'') of (uname, pw, _) \<Rightarrow>
                    (case unescape uname encodeUserPassword of
                       Inl e \<Rightarrow> Inl e
                     | Inr u \<Rightarrow>
                    (case unescape pw encodeUserPassword of
                       Inl e \<Rightarrow> Inl e
                     | Inr p \<Rightarrow>
                         Inr (Some \<lparr>username = u, password = p, passwordSet = True\<rparr>,
                              host))))))"

definition setPath :: "URL \<Rightarrow> string \<Rightarrow> url_error + URL" where
  "setPath u p =
     (case unescape p encodePath of
        Inl e \<Rightarrow> Inl e
      | Inr pth \<Rightarrow>
          Inr (u\<lparr>Path := pth, RawPath := (if p = escape pth encodePath then [] else p)\<rparr>))"

definition setFragment :: "URL \<Rightarrow> string \<Rightarrow> url_error + URL" where
  "setFragment u f =
     (case unescape f encodeFragment of
        Inl e \<Rightarrow> Inl e
      | Inr frag \<Rightarrow>
          Inr (u\<lparr>Fragment := frag,
                 RawFragment := (if f = escape frag encodeFragment then [] else f)\<rparr>))"

text \<open>\<open>parse(rawURL, viaRequest)\<close>, with the source's order of checks.\<close>

definition parse :: "string \<Rightarrow> bool \<Rightarrow> url_error + URL" where
  "parse rawURL viaRequest =
     (if stringContainsCTLByte rawURL then Inl InvalidControlCharacter
      else if rawURL = [] \<and> viaRequest then Inl EmptyURL
      else if rawURL = ''*'' then Inr (emptyURL\<lparr>Path := ''*''\<rparr>)
      else
        (case getScheme rawURL of
           Inl e \<Rightarrow> Inl e
         | Inr (scheme, rest0) \<Rightarrow>
             let u0 = emptyURL\<lparr>Scheme := ToLower scheme\<rparr>;
                 force = (HasSuffix rest0 ''?'' \<and> Count rest0 (CHR ''?'') = 1);
                 rest = (if force then butlast rest0 else fst (Cut rest0 (CHR ''?'')));
                 u1 = (if force then u0\<lparr>ForceQuery := True\<rparr>
                       else u0\<lparr>RawQuery := fst (snd (Cut rest0 (CHR ''?'')))\<rparr>)
             in
             if \<not> HasPrefix rest ''/'' \<and> Scheme u1 \<noteq> [] then Inr (u1\<lparr>Opaque := rest\<rparr>)
             else if \<not> HasPrefix rest ''/'' \<and> viaRequest then Inl InvalidURIForRequest
             else if \<not> HasPrefix rest ''/''
                     \<and> Contains (fst (Cut rest (CHR ''/''))) (CHR '':'')
               then Inl FirstPathSegmentColon
             else if (Scheme u1 \<noteq> [] \<or> \<not> viaRequest \<and> \<not> HasPrefix rest ''///'')
                     \<and> HasPrefix rest ''//''
               then
                 (let a0 = drop 2 rest;
                      authority = (case Index a0 ''/'' of None \<Rightarrow> a0 | Some i \<Rightarrow> take i a0);
                      rest' = (case Index a0 ''/'' of None \<Rightarrow> [] | Some i \<Rightarrow> drop i a0)
                  in case parseAuthority authority of
                       Inl e \<Rightarrow> Inl e
                     | Inr (usr, host) \<Rightarrow> setPath (u1\<lparr>User := usr, Host := host\<rparr>) rest')
             else if Scheme u1 \<noteq> [] \<and> HasPrefix rest ''/''
               then setPath (u1\<lparr>OmitHost := True\<rparr>) rest
             else setPath u1 rest))"

definition Parse :: "string \<Rightarrow> url_error + URL" where
  "Parse rawURL =
     (case Cut rawURL (CHR ''#'') of (u, frag, _) \<Rightarrow>
        (case parse u False of
           Inl e \<Rightarrow> Inl e
         | Inr url \<Rightarrow> if frag = [] then Inr url else setFragment url frag))"

definition splitHostPort :: "string \<Rightarrow> string \<times> string" where
  "splitHostPort hostPort =
     (let (host, port) =
            (case LastIndex hostPort (CHR '':'') of
               Some colon \<Rightarrow>
                 if validOptionalPort (drop colon hostPort)
                   then (take colon hostPort, drop (colon + 1) hostPort)
                 else (hostPort, [])
             | None \<Rightarrow> (hostPort, []))
      in if HasPrefix host ''['' \<and> HasSuffix host '']''
           then (butlast (drop 1 host), port)
         else (host, port))"

definition Hostname :: "URL \<Rightarrow> string" where
  "Hostname u = fst (splitHostPort (Host u))"

definition Port :: "URL \<Rightarrow> string" where
  "Port u = snd (splitHostPort (Host u))"

definition Userinfo_String :: "Userinfo \<Rightarrow> string" where
  "Userinfo_String ui =
     escape (username ui) encodeUserPassword
     @ (if passwordSet ui then '':'' @ escape (password ui) encodeUserPassword else [])"

definition EscapedPath :: "URL \<Rightarrow> string" where
  "EscapedPath u =
     (if RawPath u \<noteq> [] \<and> validEncoded (RawPath u) encodePath
         \<and> unescape (RawPath u) encodePath = Inr (Path u) then RawPath u
      else if Path u = ''*'' then ''*''
      else escape (Path u) encodePath)"

definition EscapedFragment :: "URL \<Rightarrow> string" where
  "EscapedFragment u =
     (if RawFragment u \<noteq> [] \<and> validEncoded (RawFragment u) encodeFragment
         \<and> unescape (RawFragment u) encodeFragment = Inr (Fragment u) then RawFragment u
      else escape (Fragment u) encodeFragment)"

text \<open>\<open>(*URL).String\<close>: the buffer is built left to right, so each part is named and
  the parts are appended in the source's order.\<close>

definition URL_String :: "URL \<Rightarrow> string" where
  "URL_String u =
     (let scheme = (if Scheme u \<noteq> [] then Scheme u @ '':'' else []);
          body =
            (if Opaque u \<noteq> [] then scheme @ Opaque u
             else
               (let auth =
                      (if Scheme u \<noteq> [] \<or> Host u \<noteq> [] \<or> User u \<noteq> None then
                         (if OmitHost u \<and> Host u = [] \<and> User u = None then []
                          else
                            (if Host u \<noteq> [] \<or> Path u \<noteq> [] \<or> User u \<noteq> None then ''//'' else [])
                            @ (case User u of None \<Rightarrow> [] | Some ui \<Rightarrow> Userinfo_String ui @ ''@'')
                            @ (if Host u \<noteq> [] then escape (Host u) encodeHost else []))
                       else []);
                    pth = EscapedPath u;
                    buf1 = scheme @ auth
                           @ (if pth \<noteq> [] \<and> hd pth \<noteq> CHR ''/'' \<and> Host u \<noteq> [] then ''/'' else []);
                    buf2 = buf1
                           @ (if buf1 = [] \<and> Contains (fst (Cut pth (CHR ''/''))) (CHR '':'')
                              then ''./'' else [])
                in buf2 @ pth))
      in body
         @ (if ForceQuery u \<or> RawQuery u \<noteq> [] then ''?'' @ RawQuery u else [])
         @ (if Fragment u \<noteq> [] then ''#'' @ EscapedFragment u else []))"

section \<open>Go's path\<close>

text \<open>
  Object keys are built with \<open>path.Join\<close>, which joins its arguments with slashes and
  returns \<open>path.Clean\<close> of the result. \<open>Clean\<close> reads the path byte by byte and writes
  to a buffer \<open>out\<close> (the source's \<open>lazybuf\<close>, whose length is \<open>out.w\<close>); \<open>dotdot\<close> is
  the length of the buffer's prefix that a \<open>..\<close> element must not remove.
\<close>

text \<open>Backtracking after \<open>out.w--\<close>: \<open>w\<close> moves left to \<open>dotdot\<close> or to a slash.\<close>

function backtrack :: "string \<Rightarrow> nat \<Rightarrow> nat \<Rightarrow> nat" where
  "backtrack out dotdot w =
     (if w > dotdot \<and> out ! w \<noteq> CHR ''/'' then backtrack out dotdot (w - 1) else w)"
  by pat_completeness auto
termination
  by (relation "measure (\<lambda>(out, dotdot, w). w)") auto

declare backtrack.simps [simp del]

text \<open>The loop \<open>for r < n\<close> of \<open>Clean\<close>: the second argument is the unread part
  \<open>path[r:]\<close>, so \<open>r++\<close> drops one byte and \<open>r += 2\<close> two; the last branch copies a
  path element up to the next slash.\<close>

function Clean_loop :: "bool \<Rightarrow> string \<Rightarrow> string \<Rightarrow> nat \<Rightarrow> string" where
  "Clean_loop rooted [] out dotdot = out"
| "Clean_loop rooted (c # p) out dotdot =
     (if c = CHR ''/'' then Clean_loop rooted p out dotdot
      else if c = CHR ''.'' \<and> (p = [] \<or> hd p = CHR ''/'') then Clean_loop rooted p out dotdot
      else if c = CHR ''.'' \<and> hd p = CHR ''.'' \<and> (tl p = [] \<or> hd (tl p) = CHR ''/'') then
        (if length out > dotdot
           then Clean_loop rooted (tl p) (take (backtrack out dotdot (length out - 1)) out) dotdot
         else if \<not> rooted
           then Clean_loop rooted (tl p) ((if out \<noteq> [] then out @ ''/'' else out) @ ''..'')
                  (length ((if out \<noteq> [] then out @ ''/'' else out) @ ''..''))
         else Clean_loop rooted (tl p) out dotdot)
      else
        Clean_loop rooted (dropWhile (\<lambda>x. x \<noteq> CHR ''/'') p)
          ((if rooted \<and> length out \<noteq> 1 \<or> \<not> rooted \<and> length out \<noteq> 0 then out @ ''/'' else out)
           @ c # takeWhile (\<lambda>x. x \<noteq> CHR ''/'') p)
          dotdot)"
  by pat_completeness auto
termination
  by (relation "measure (\<lambda>(rooted, p, out, dotdot). length p)")
     (auto simp: le_imp_less_Suc length_dropWhile_le)

declare Clean_loop.simps [simp del]

definition Clean :: "string \<Rightarrow> string" where
  "Clean pth =
     (if pth = [] then ''.''
      else
        (let rooted = (hd pth = CHR ''/'');
             out = (if rooted then Clean_loop True (tl pth) ''/'' 1
                    else Clean_loop False pth [] 0)
         in if out = [] then ''.'' else out))"

text \<open>The loop of \<open>path.Join\<close> that fills \<open>buf\<close>.\<close>

fun Join_buf :: "string \<Rightarrow> string list \<Rightarrow> string" where
  "Join_buf buf [] = buf"
| "Join_buf buf (e # elem) =
     (if buf \<noteq> [] \<or> e \<noteq> []
        then Join_buf ((if buf \<noteq> [] then buf @ ''/'' else buf) @ e) elem
      else Join_buf buf elem)"

definition Join :: "string list \<Rightarrow> string" where
  "Join elem = (if sum_list (map length elem) = 0 then [] else Clean (Join_buf [] elem))"

section \<open>The S3 storage client\<close>

record S3 =
  url :: URL
  pathStyle :: bool
  region :: string
  endpoint :: string
  accessKeyId :: string
  secretAccessKey :: string

text \<open>An \<open>Option\<close> is a function that updates the client under construction.\<close>

type_synonym Option = "S3 \<Rightarrow> S3"

definition WithPathStyle :: Option where
  "WithPathStyle = (\<lambda>s. s\<lparr>pathStyle := True\<rparr>)"

definition WithRegion :: "string \<Rightarrow> Option" where
  "WithRegion r = (\<lambda>s. s\<lparr>region := r\<rparr>)"

definition WithEndpoint :: "string \<Rightarrow> Option" where
  "WithEndpoint e = (\<lambda>s. s\<lparr>endpoint := e\<rparr>)"

definition WithAccessKeyId :: "string \<Rightarrow> Option" where
  "WithAccessKeyId a = (\<lambda>s. s\<lparr>accessKeyId := a\<rparr>)"

definition WithSecretAccessKey :: "string \<Rightarrow> Option" where
  "WithSecretAccessKey k = (\<lambda>s. s\<lparr>secretAccessKey := k\<rparr>)"

text \<open>The options this package provides.\<close>

definition package_options :: "Option set" where
  "package_options =
     {WithPathStyle} \<union> range WithRegion \<union> range WithEndpoint \<union> range WithAccessKeyId
     \<union> range WithSecretAccessKey"

text \<open>\<open>New\<close> starts from \<open>&S3{url: u}\<close>, every other field at its zero value, and
  applies the options from left to right. It has no error result.\<close>

fun New_loop :: "S3 \<Rightarrow> Option list \<Rightarrow> S3" where
  "New_loop s [] = s"
| "New_loop s (opt # opts) = New_loop (opt s) opts"

definition New :: "URL \<Rightarrow> Option list \<Rightarrow> S3" where
  "New u opts =
     New_loop \<lparr>url = u, pathStyle = False, region = [], endpoint = [], accessKeyId = [],
               secretAccessKey = []\<rparr> opts"

definition Protocol :: "S3 \<Rightarrow> string" where
  "Protocol s = ''s3''"

text \<open>The method \<open>URL()\<close>; \<open>URL_String\<close> is \<open>(*URL).String\<close> of \<open>net/url\<close>.\<close>

definition URL_of :: "S3 \<Rightarrow> string" where
  "URL_of s = URL_String (url s)"

subsection \<open>Endpoint normalisation\<close>

definition getEndpoint :: "string \<Rightarrow> string" where
  "getEndpoint endpoint' =
     (case Parse endpoint' of
        Inl err \<Rightarrow> endpoint'
      | Inr u \<Rightarrow>
          if Hostname u = ''127.0.0.1'' then
            (let port = Port u;
                 u1 = u\<lparr>Host := ''localhost''\<rparr>;
                 u2 = (if port \<noteq> [] then u1\<lparr>Host := Host u1 @ '':'' @ port\<rparr> else u1)
             in URL_String u2)
          else endpoint')"

subsection \<open>The SDK and the world the operations run in\<close>

text \<open>
  Every network and credential step is delegated to the AWS SDK. The SDK is a parameter
  of the model: a record of functions over an abstract configuration type \<open>'cfg\<close>
  (\<open>aws.Config\<close>) and an abstract backend state \<open>'b\<close>. Errors of the SDK are carried as
  their message.
\<close>

datatype ClientLogMode = LogRequestWithBody | LogResponse

datatype load_option =
  WithEndpointResolverWithOptions string
  | WithClientLogMode "ClientLogMode set"

text \<open>\<open>types.Object\<close> of a listing: \<open>Key\<close> and \<open>LastModified\<close> are pointers, \<open>Size\<close> is
  an \<open>int64\<close>. An instant of \<open>time.Time\<close> is an integer.\<close>

type_synonym Time = int

record Object =
  Key :: "string option"
  LastModified :: "Time option"
  Size :: "64 word"

record ('cfg, 'b) sdk =
  LoadDefaultConfig :: "load_option list \<Rightarrow> string + 'cfg"
  Download :: "'cfg \<Rightarrow> string \<Rightarrow> string \<Rightarrow> 'b \<Rightarrow> string \<times> (string + 64 word)"
  Upload :: "'cfg \<Rightarrow> string \<Rightarrow> string \<Rightarrow> string \<Rightarrow> 'b \<Rightarrow> string option \<times> 'b"
  ListObjectsV2 :: "'cfg \<Rightarrow> string \<Rightarrow> string \<Rightarrow> 'b \<Rightarrow> string + Object list"
  DeleteObject :: "'cfg \<Rightarrow> string \<Rightarrow> string \<Rightarrow> 'b \<Rightarrow> string option \<times> 'b"

text \<open>
  \<open>Download cfg bucket key b\<close> gives the bytes the downloader wrote to the file and
  its result (an error, or the byte count \<open>n\<close>); \<open>Upload cfg bucket key body b\<close> and
  \<open>DeleteObject cfg bucket key b\<close> give an optional error and the new backend state;
  \<open>ListObjectsV2 cfg bucket prefix b\<close> gives an error or \<open>result.Contents\<close>.

  The calls made to the SDK are logged, each with the configuration of the client it
  was made through and the fields of its input struct.
\<close>

datatype 'cfg sdk_call =
  LoadDefaultConfig_call "load_option list"
  | Download_call 'cfg string string
  | Upload_call 'cfg string string string
  | ListObjectsV2_call 'cfg string string
  | DeleteObject_call 'cfg string string

text \<open>
  The world: whether logrus has the trace level enabled, the backend, the local files
  (path to content; \<open>os.Open\<close> succeeds on the paths that have one), the paths at
  which \<open>os.Create\<close> succeeds, and the log of SDK calls.
\<close>

record ('cfg, 'b) world =
  TraceLevel :: bool
  backend :: 'b
  files :: "string \<rightharpoonup> string"
  creatable :: "string \<Rightarrow> bool"
  calls :: "'cfg sdk_call list"

datatype error =
  ConfigError string
  | CreateError string
  | OpenError string
  | DownloadError string
  | UploadError string
  | ListError string
  | DeleteError string
  | NilPointerDereference

subsection \<open>Configuration resolution\<close>

definition getConfig ::
  "('cfg, 'b) sdk \<Rightarrow> string \<Rightarrow> ('cfg, 'b) world \<Rightarrow> (string + 'cfg) \<times> ('cfg, 'b) world" where
  "getConfig sdk endpoint' w =
     (let cleanEndpoint = getEndpoint endpoint';
          opts = [WithEndpointResolverWithOptions cleanEndpoint]
                 @ (if TraceLevel w then [WithClientLogMode {LogRequestWithBody, LogResponse}]
                    else [])
      in (LoadDefaultConfig sdk opts, w\<lparr>calls := calls w @ [LoadDefaultConfig_call opts]\<rparr>))"

subsection \<open>Pull and Push\<close>

text \<open>A Go result \<open>(n, nil)\<close> is \<open>Inr n\<close>; a result \<open>(0, err)\<close> is \<open>Inl err\<close>.\<close>

definition Pull ::
  "('cfg, 'b) sdk \<Rightarrow> S3 \<Rightarrow> string \<Rightarrow> string \<Rightarrow> ('cfg, 'b) world
     \<Rightarrow> (error + 64 word) \<times> ('cfg, 'b) world" where
  "Pull sdk s source target w =
     (let bucket = Hostname (url s);
          pth = Join [Path (url s), source]
      in case getConfig sdk (endpoint s) w of
           (Inl err, w1) \<Rightarrow> (Inl (ConfigError err), w1)
         | (Inr cfg, w1) \<Rightarrow>
             if \<not> creatable w1 target then (Inl (CreateError target), w1)
             else
               (let w2 = w1\<lparr>files := (files w1)(target \<mapsto> [])\<rparr>;
                    (written, res) = Download sdk cfg bucket pth (backend w2);
                    w3 = w2\<lparr>files := (files w2)(target \<mapsto> written),
                            calls := calls w2 @ [Download_call cfg bucket pth]\<rparr>
                in case res of
                     Inl err \<Rightarrow> (Inl (DownloadError err), w3)
                   | Inr n \<Rightarrow> (Inr n, w3)))"

definition Push ::
  "('cfg, 'b) sdk \<Rightarrow> S3 \<Rightarrow> string \<Rightarrow> string \<Rightarrow> ('cfg, 'b) world
     \<Rightarrow> (error + 64 word) \<times> ('cfg, 'b) world" where
  "Push sdk s target source w =
     (let bucket = Hostname (url s);
          key = Path (url s)
      in case getConfig sdk (endpoint s) w of
           (Inl err, w1) \<Rightarrow> (Inl (ConfigError err), w1)
         | (Inr cfg, w1) \<Rightarrow>
             (case files w1 source of
                None \<Rightarrow> (Inl (OpenError source), w1)
              | Some f \<Rightarrow>
                  (let (err, b) = Upload sdk cfg bucket (Join [key, target]) f (backend w1);
                       w2 = w1\<lparr>backend := b,
                               calls := calls w1 @ [Upload_call cfg bucket (Join [key, target]) f]\<rparr>
                   in case err of
                        Some e \<Rightarrow> (Inl (UploadError e), w2)
                      | None \<Rightarrow> (Inr 0, w2))))"

subsection \<open>ReadDir and Remove\<close>

record s3FileInfo =
  name :: string
  lastModified :: Time
  size' :: "64 word"

definition s3FileInfo_Name :: "s3FileInfo \<Rightarrow> string" where
  "s3FileInfo_Name fi = name fi"

definition s3FileInfo_Size :: "s3FileInfo \<Rightarrow> 64 word" where
  "s3FileInfo_Size fi = size' fi"

definition s3FileInfo_Mode :: "s3FileInfo \<Rightarrow> 32 word" where
  "s3FileInfo_Mode fi = 0"

definition s3FileInfo_ModTime :: "s3FileInfo \<Rightarrow> Time" where
  "s3FileInfo_ModTime fi = lastModified fi"

definition s3FileInfo_IsDir :: "s3FileInfo \<Rightarrow> bool" where
  "s3FileInfo_IsDir fi = False"

definition s3FileInfo_Sys :: "s3FileInfo \<Rightarrow> unit option" where
  "s3FileInfo_Sys fi = None"

text \<open>The conversion loop of \<open>ReadDir\<close>: \<open>*item.Key\<close> and \<open>*item.LastModified\<close>
  dereference pointers, and a nil pointer panics.\<close>

fun ReadDir_loop :: "Object list \<Rightarrow> s3FileInfo list \<Rightarrow> error + s3FileInfo list" where
  "ReadDir_loop [] files' = Inr files'"
| "ReadDir_loop (item # items) files' =
     (case Key item of
        None \<Rightarrow> Inl NilPointerDereference
      | Some k \<Rightarrow>
          (case LastModified item of
             None \<Rightarrow> Inl NilPointerDereference
           | Some t \<Rightarrow>
               ReadDir_loop items
                 (files' @ [\<lparr>name = k, lastModified = t, size' = Size item\<rparr>])))"

definition ReadDir ::
  "('cfg, 'b) sdk \<Rightarrow> S3 \<Rightarrow> string \<Rightarrow> ('cfg, 'b) world
     \<Rightarrow> (error + s3FileInfo list) \<times> ('cfg, 'b) world" where
  "ReadDir sdk s dirname w =
     (case getConfig sdk (endpoint s) w of
        (Inl err, w1) \<Rightarrow> (Inl (ConfigError err), w1)
      | (Inr cfg, w1) \<Rightarrow>
          (let w2 = w1\<lparr>calls := calls w1 @ [ListObjectsV2_call cfg (Hostname (url s)) dirname]\<rparr>
           in case ListObjectsV2 sdk cfg (Hostname (url s)) dirname (backend w1) of
                Inl err \<Rightarrow> (Inl (ListError err), w2)
              | Inr contents \<Rightarrow> (ReadDir_loop contents [], w2)))"

definition Remove ::
  "('cfg, 'b) sdk \<Rightarrow> S3 \<Rightarrow> string \<Rightarrow> ('cfg, 'b) world \<Rightarrow> error option \<times> ('cfg, 'b) world" where
  "Remove sdk s target w =
     (case getConfig sdk (endpoint s) w of
        (Inl err, w1) \<Rightarrow> (Some (ConfigError err), w1)
      | (Inr cfg, w1) \<Rightarrow>
          (let (err, b) = DeleteObject sdk cfg (Hostname (url s)) target (backend w1);
               w2 = w1\<lparr>backend := b,
                       calls := calls w1 @ [DeleteObject_call cfg (Hostname (url s)) target]\<rparr>
           in case err of
                Some e \<Rightarrow> (Some (DeleteError e), w2)
              | None \<Rightarrow> (None, w2)))"

section \<open>A small in-memory SDK\<close>

text \<open>
  To run the operations on concrete inputs, \<open>demo_sdk\<close> stands in for the SDK: its
  configuration is the endpoint of the resolver, its backend a list of
  ((bucket, key), body) entries. \<open>demo_world\<close> holds two objects and one local file;
  \<open>demo_location\<close> is the location \<open>s3://bucket/prefix\<close>.
\<close>

definition demo_sdk :: "(string, ((string \<times> string) \<times> string) list) sdk" where
  "demo_sdk =
     \<lparr>LoadDefaultConfig =
        (\<lambda>opts. case opts of
                   WithEndpointResolverWithOptions e # _ \<Rightarrow> Inr e
                 | _ \<Rightarrow> Inl ''no endpoint resolver''),
      Download =
        (\<lambda>cfg bucket key b.
           case map_of b (bucket, key) of
             None \<Rightarrow> ([], Inl ''NoSuchKey'')
           | Some body \<Rightarrow> (body, Inr (of_nat (length body)))),
      Upload = (\<lambda>cfg bucket key body b. (None, ((bucket, key), body) # b)),
      ListObjectsV2 =
        (\<lambda>cfg bucket prefix' b.
           Inr (map (\<lambda>((bk, k), body).
                       \<lparr>Key = Some k, LastModified = Some 0, Size = of_nat (length body)\<rparr>)
                  (filter (\<lambda>((bk, k), body). bk = bucket \<and> HasPrefix k prefix') b))),
      DeleteObject =
        (\<lambda>cfg bucket key b. (None, filter (\<lambda>(bk, body). bk \<noteq> (bucket, key)) b))\<rparr>"

definition demo_world :: "(string, ((string \<times> string) \<times> string) list) world" where
  "demo_world =
     \<lparr>TraceLevel = False,
      backend = [((''bucket'', ''/prefix/a/b.txt''), ''hello''), ((''bucket'', ''x''), ''yz'')],
      files = [''/tmp/in'' \<mapsto> ''data''],
      creatable = (\<lambda>p. True),
      calls = []\<rparr>"

definition demo_location :: URL where
  "demo_location = emptyURL\<lparr>Scheme := ''s3'', Host := ''bucket'', Path := ''/prefix''\<rparr>"

section \<open>Properties of keys\<close>

text \<open>A string has a double slash when two adjacent bytes are both \<open>/\<close>.\<close>

fun double_slash :: "string \<Rightarrow> bool" where
  "double_slash (a # b # s) = (a = CHR ''/'' \<and> b = CHR ''/'' \<or> double_slash (b # s))"
| "double_slash s = False"

text \<open>
  The invariant of the loop of \<open>Clean\<close>: the buffer has no double slash, \<open>dotdot\<close>
  lies inside it, a rooted buffer starts with the slash and protects exactly it, the
  protected prefix of an unrooted buffer does not end in a slash, and the buffer ends
  in a slash only when it is the root alone.
\<close>

definition clean_inv :: "bool \<Rightarrow> string \<Rightarrow> nat \<Rightarrow> bool" where
  "clean_inv rooted out dotdot =
     (\<not> double_slash out \<and> dotdot \<le> length out
      \<and> (rooted \<longrightarrow> dotdot = 1 \<and> take 1 out = ''/'')
      \<and> (\<not> rooted \<longrightarrow> dotdot = 0 \<or> out ! (dotdot - 1) \<noteq> CHR ''/'')
      \<and> (out \<noteq> [] \<and> last out = CHR ''/'' \<longrightarrow> rooted \<and> length out = 1))"

section \<open>Construction\<close>

text \<open>None of the package's options touches the location.\<close>

lemma New_loop_url: "set opts \<subseteq> package_options \<Longrightarrow> url (New_loop s opts) = url s"
proof (induction opts arbitrary: s)
  case Nil
  then show ?case by simp
next
  case (Cons opt opts)
  from Cons.prems have "opt \<in> package_options" and rest: "set opts \<subseteq> package_options"
    by simp_all
  then have "url (opt s) = url s"
    by (auto simp: package_options_def WithPathStyle_def WithRegion_def WithEndpoint_def
        WithAccessKeyId_def WithSecretAccessKey_def)
  with Cons.IH [OF rest, of "opt s"] show ?case by simp
qed

lemma New_url: "set opts \<subseteq> package_options \<Longrightarrow> url (New u opts) = u"
  by (simp add: New_def New_loop_url)

text \<open>
  Claim C1, as stated (construction with an empty host fails validation), does not
  hold: \<open>New\<close> has no error result and checks nothing. At the location
  \<open>s3:///backups\<close>, whose host is empty, it returns a client bound to that location,
  and \<open>Remove\<close> on that client sends a delete request with the empty bucket name.
\<close>

theorem New_accepts_empty_host:
  "Parse ''s3:///backups'' = Inr (emptyURL\<lparr>Scheme := ''s3'', Path := ''/backups''\<rparr>)
   \<and> Hostname (emptyURL\<lparr>Scheme := ''s3'', Path := ''/backups''\<rparr>) = []
   \<and> url (New (emptyURL\<lparr>Scheme := ''s3'', Path := ''/backups''\<rparr>) [])
       = emptyURL\<lparr>Scheme := ''s3'', Path := ''/backups''\<rparr>
   \<and> calls (snd (Remove demo_sdk (New (emptyURL\<lparr>Scheme := ''s3'', Path := ''/backups''\<rparr>) [])
                  ''k'' demo_world))
       = [LoadDefaultConfig_call [WithEndpointResolverWithOptions []],
          DeleteObject_call [] [] ''k'']"
  by code_simp

text \<open>
  Claim C1, amended: construction performs no validation and cannot fail. For every
  location, with an empty host or not, and every list of the package's options, \<open>New\<close>
  returns a client bound to exactly that location, so the client's bucket is the
  location's host name. \<open>New\<close> is a function of its arguments alone: it takes no
  world and makes no SDK call.
\<close>

theorem New_total:
  "set opts \<subseteq> package_options \<Longrightarrow>
     url (New u opts) = u \<and> Hostname (url (New u opts)) = Hostname u"
  by (simp add: New_url)

theorem New_total_witness:
  "set [WithRegion ''eu-west-1'', WithPathStyle] \<subseteq> package_options
   \<and> url (New (emptyURL\<lparr>Scheme := ''s3''\<rparr>) [WithRegion ''eu-west-1'', WithPathStyle])
       = emptyURL\<lparr>Scheme := ''s3''\<rparr>
   \<and> Hostname (url (New (emptyURL\<lparr>Scheme := ''s3''\<rparr>) [WithRegion ''eu-west-1'', WithPathStyle])) = []"
proof -
  have h: "set [WithRegion ''eu-west-1'', WithPathStyle] \<subseteq> package_options"
    by (simp add: package_options_def)
  have e: "Hostname (emptyURL\<lparr>Scheme := ''s3''\<rparr>) = []"
    by code_simp
  show ?thesis
    using h New_total [OF h, of "emptyURL\<lparr>Scheme := ''s3''\<rparr>"] e by simp
qed

text \<open>
  Claim C8: \<open>Protocol\<close> is constant. For every location and every list of options
  given to \<open>New\<close>, it returns the scheme identifier \<open>s3\<close>.
\<close>

theorem Protocol_constant: "Protocol (New u opts) = ''s3''"
  by (simp add: Protocol_def)

text \<open>
  Claim C7: \<open>URL\<close> gives back the location used at construction. For every location
  and every list of the package's options, the client built by \<open>New\<close> reports the
  string form of that location.
\<close>

theorem URL_round_trip:
  "set opts \<subseteq> package_options \<Longrightarrow> URL_of (New u opts) = URL_String u"
  by (simp add: URL_of_def New_url)

theorem URL_round_trip_witness:
  "set [WithEndpoint ''http://127.0.0.1:9000'', WithAccessKeyId ''id''] \<subseteq> package_options
   \<and> Parse ''s3://bucket/prefix'' = Inr demo_location
   \<and> URL_of (New demo_location [WithEndpoint ''http://127.0.0.1:9000'', WithAccessKeyId ''id''])
       = ''s3://bucket/prefix''"
proof -
  have h: "set [WithEndpoint ''http://127.0.0.1:9000'', WithAccessKeyId ''id''] \<subseteq> package_options"
    by (simp add: package_options_def)
  have p: "Parse ''s3://bucket/prefix'' = Inr demo_location"
    by code_simp
  have s: "URL_String demo_location = ''s3://bucket/prefix''"
    by code_simp
  show ?thesis
    using h p s URL_round_trip [OF h, of demo_location] by simp
qed

section \<open>Fields the operations never read\<close>

text \<open>The four operations read only the location and the endpoint of the client.\<close>

lemma operations_read_url_and_endpoint:
  assumes "url s1 = url s2" and "endpoint s1 = endpoint s2"
  shows "Pull sdk s1 source target w = Pull sdk s2 source target w"
    and "Push sdk s1 target source w = Push sdk s2 target source w"
    and "ReadDir sdk s1 dirname w = ReadDir sdk s2 dirname w"
    and "Remove sdk s1 target w = Remove sdk s2 target w"
  unfolding Pull_def Push_def ReadDir_def Remove_def assms by (rule refl)+

text \<open>
  Claim C4: the fields \<open>accessKeyId\<close> and \<open>secretAccessKey\<close> never influence the
  resolved configuration. Two clients that agree on every other field build the same
  configuration (with the same SDK call), and \<open>Pull\<close>, \<open>Push\<close>, \<open>ReadDir\<close> and
  \<open>Remove\<close> give the same result and the same final world for both.
\<close>

theorem credentials_noninterference:
  assumes "url s1 = url s2" and "pathStyle s1 = pathStyle s2" and "region s1 = region s2"
    and "endpoint s1 = endpoint s2"
  shows "getConfig sdk (endpoint s1) w = getConfig sdk (endpoint s2) w
       \<and> Pull sdk s1 source target w = Pull sdk s2 source target w
       \<and> Push sdk s1 target source w = Push sdk s2 target source w
       \<and> ReadDir sdk s1 dirname w = ReadDir sdk s2 dirname w
       \<and> Remove sdk s1 target w = Remove sdk s2 target w"
  using assms(4) by (simp add: operations_read_url_and_endpoint [OF assms(1) assms(4)])

theorem credentials_noninterference_witness:
  "url (New demo_location [WithAccessKeyId ''AKIA'', WithSecretAccessKey ''secret''])
     = url (New demo_location [])
   \<and> pathStyle (New demo_location [WithAccessKeyId ''AKIA'', WithSecretAccessKey ''secret''])
     = pathStyle (New demo_location [])
   \<and> region (New demo_location [WithAccessKeyId ''AKIA'', WithSecretAccessKey ''secret''])
     = region (New demo_location [])
   \<and> endpoint (New demo_location [WithAccessKeyId ''AKIA'', WithSecretAccessKey ''secret''])
     = endpoint (New demo_location [])
   \<and> accessKeyId (New demo_location [WithAccessKeyId ''AKIA'', WithSecretAccessKey ''secret''])
     \<noteq> accessKeyId (New demo_location [])
   \<and> secretAccessKey (New demo_location [WithAccessKeyId ''AKIA'', WithSecretAccessKey ''secret''])
     \<noteq> secretAccessKey (New demo_location [])
   \<and> Pull demo_sdk (New demo_location [WithAccessKeyId ''AKIA'', WithSecretAccessKey ''secret''])
       ''a/b.txt'' ''/tmp/out'' demo_world
     = Pull demo_sdk (New demo_location []) ''a/b.txt'' ''/tmp/out'' demo_world
   \<and> Remove demo_sdk (New demo_location [WithAccessKeyId ''AKIA'', WithSecretAccessKey ''secret''])
       ''/tmp/out'' demo_world
     = Remove demo_sdk (New demo_location []) ''/tmp/out'' demo_world"
  using credentials_noninterference
    [where ?s1.0 = "New demo_location [WithAccessKeyId ''AKIA'', WithSecretAccessKey ''secret'']"
       and ?s2.0 = "New demo_location []" and sdk = demo_sdk and w = demo_world
       and source = "''a/b.txt''" and target = "''/tmp/out''"]
  by (simp add: New_def WithAccessKeyId_def WithSecretAccessKey_def)

text \<open>
  Claim C10: the fields \<open>region\<close> and \<open>pathStyle\<close> never influence an operation. Two
  clients that agree on every other field build the same configuration, and \<open>Pull\<close>,
  \<open>Push\<close>, \<open>ReadDir\<close> and \<open>Remove\<close> give the same result and the same final world,
  hence the same SDK calls, for both.
\<close>

theorem region_pathStyle_noninterference:
  assumes "url s1 = url s2" and "endpoint s1 = endpoint s2"
    and "accessKeyId s1 = accessKeyId s2" and "secretAccessKey s1 = secretAccessKey s2"
  shows "getConfig sdk (endpoint s1) w = getConfig sdk (endpoint s2) w
       \<and> Pull sdk s1 source target w = Pull sdk s2 source target w
       \<and> Push sdk s1 target source w = Push sdk s2 target source w
       \<and> ReadDir sdk s1 dirname w = ReadDir sdk s2 dirname w
       \<and> Remove sdk s1 target w = Remove sdk s2 target w"
  using assms(2) by (simp add: operations_read_url_and_endpoint [OF assms(1) assms(2)])

theorem region_pathStyle_noninterference_witness:
  "url (New demo_location [WithRegion ''eu-west-1'', WithPathStyle]) = url (New demo_location [])
   \<and> endpoint (New demo_location [WithRegion ''eu-west-1'', WithPathStyle])
     = endpoint (New demo_location [])
   \<and> accessKeyId (New demo_location [WithRegion ''eu-west-1'', WithPathStyle])
     = accessKeyId (New demo_location [])
   \<and> secretAccessKey (New demo_location [WithRegion ''eu-west-1'', WithPathStyle])
     = secretAccessKey (New demo_location [])
   \<and> region (New demo_location [WithRegion ''eu-west-1'', WithPathStyle])
     \<noteq> region (New demo_location [])
   \<and> pathStyle (New demo_location [WithRegion ''eu-west-1'', WithPathStyle])
     \<noteq> pathStyle (New demo_location [])
   \<and> Push demo_sdk (New demo_location [WithRegion ''eu-west-1'', WithPathStyle])
       ''t'' ''/tmp/in'' demo_world
     = Push demo_sdk (New demo_location []) ''t'' ''/tmp/in'' demo_world
   \<and> ReadDir demo_sdk (New demo_location [WithRegion ''eu-west-1'', WithPathStyle]) ''x'' demo_world
     = ReadDir demo_sdk (New demo_location []) ''x'' demo_world"
  using region_pathStyle_noninterference
    [where ?s1.0 = "New demo_location [WithRegion ''eu-west-1'', WithPathStyle]"
       and ?s2.0 = "New demo_location []" and sdk = demo_sdk and w = demo_world
       and source = "''/tmp/in''" and target = "''t''" and dirname = "''x''"]
  by (simp add: New_def WithRegion_def WithPathStyle_def)

section \<open>Object keys\<close>

subsection \<open>\<open>path.Clean\<close> never leaves a double slash and keeps the root\<close>

lemma double_slash_Cons:
  "double_slash (a # s) = (a = CHR ''/'' \<and> s \<noteq> [] \<and> hd s = CHR ''/'' \<or> double_slash s)"
  by (cases s) auto

lemma double_slash_append:
  "double_slash (xs @ ys) =
     (double_slash xs \<or> double_slash ys
      \<or> xs \<noteq> [] \<and> ys \<noteq> [] \<and> last xs = CHR ''/'' \<and> hd ys = CHR ''/'')"
proof (induction xs)
  case Nil
  then show ?case by simp
next
  case (Cons a xs)
  show ?case
  proof (cases xs)
    case Nil
    then show ?thesis by (auto simp: double_slash_Cons)
  next
    case (Cons b zs)
    with Cons.IH show ?thesis by auto
  qed
qed

lemma double_slash_take: "\<not> double_slash xs \<Longrightarrow> \<not> double_slash (take n xs)"
  using double_slash_append [of "take n xs" "drop n xs"] by simp

lemma no_slash_no_double: "CHR ''/'' \<notin> set xs \<Longrightarrow> \<not> double_slash xs"
  by (induction xs rule: double_slash.induct) auto

lemma double_slash_nth:
  "Suc i < length xs \<Longrightarrow> xs ! i = CHR ''/'' \<Longrightarrow> xs ! Suc i = CHR ''/'' \<Longrightarrow> double_slash xs"
proof (induction xs arbitrary: i rule: double_slash.induct)
  case (1 a b s)
  then show ?case by (cases i) auto
qed auto

lemma backtrack_bounds:
  "dotdot \<le> w \<Longrightarrow>
     dotdot \<le> backtrack out dotdot w \<and> backtrack out dotdot w \<le> w
     \<and> (backtrack out dotdot w = dotdot \<or> out ! backtrack out dotdot w = CHR ''/'')"
proof (induction out dotdot w rule: backtrack.induct)
  case (1 out dotdot w)
  show ?case
  proof (cases "w > dotdot \<and> out ! w \<noteq> CHR ''/''")
    case True
    then have le: "dotdot \<le> w - 1" by arith
    have eq: "backtrack out dotdot w = backtrack out dotdot (w - 1)"
      using True by (subst backtrack.simps) simp
    from "1.IH" [OF True le] show ?thesis
      unfolding eq by auto
  next
    case False
    have eq: "backtrack out dotdot w = w"
      by (subst backtrack.simps) (simp only: False if_False)
    from False "1.prems" show ?thesis
      unfolding eq by auto
  qed
qed

lemma clean_inv_backtrack:
  assumes "clean_inv rooted out dotdot" and "length out > dotdot"
  shows "clean_inv rooted (take (backtrack out dotdot (length out - 1)) out) dotdot"
proof -
  define w where "w = backtrack out dotdot (length out - 1)"
  from assms(2) have "dotdot \<le> length out - 1" by arith
  from backtrack_bounds [OF this, of out] have
    lo: "dotdot \<le> w" and hi: "w \<le> length out - 1"
    and stop: "w = dotdot \<or> out ! w = CHR ''/''"
    by (simp_all add: w_def)
  from hi assms(2) have wlt: "w < length out" by arith
  from assms(1) have nd: "\<not> double_slash out"
    and r: "rooted \<longrightarrow> dotdot = 1 \<and> take 1 out = ''/''"
    and nr: "\<not> rooted \<longrightarrow> dotdot = 0 \<or> out ! (dotdot - 1) \<noteq> CHR ''/''"
    by (simp_all add: clean_inv_def)
  have a: "\<not> double_slash (take w out)"
    using nd by (rule double_slash_take)
  have b: "dotdot \<le> length (take w out)"
    using lo wlt by simp
  have c: "rooted \<longrightarrow> dotdot = 1 \<and> take 1 (take w out) = ''/''"
    using r lo by (auto simp: min_def)
  have d: "\<not> rooted \<longrightarrow> dotdot = 0 \<or> take w out ! (dotdot - 1) \<noteq> CHR ''/''"
    using nr lo by auto
  have e: "take w out \<noteq> [] \<and> last (take w out) = CHR ''/'' \<longrightarrow> rooted \<and> length (take w out) = 1"
  proof
    assume h: "take w out \<noteq> [] \<and> last (take w out) = CHR ''/''"
    then have w0: "0 < w" by (cases w) auto
    from h wlt have "last (take w out) = take w out ! (w - 1)"
      using last_conv_nth [of "take w out"] by simp
    with w0 h have l: "out ! (w - 1) = CHR ''/''"
      by simp
    from stop show "rooted \<and> length (take w out) = 1"
    proof
      assume "w = dotdot"
      with w0 l nr r wlt show ?thesis by (cases rooted) auto
    next
      assume "out ! w = CHR ''/''"
      with l w0 wlt have "double_slash out"
        using double_slash_nth [of "w - 1" out] by simp
      with nd show ?thesis by simp
    qed
  qed
  from a b c d e show ?thesis
    unfolding clean_inv_def w_def by blast
qed

lemma clean_inv_dotdot:
  assumes "clean_inv False out dotdot"
  shows "clean_inv False ((if out \<noteq> [] then out @ ''/'' else out) @ ''..'')
           (length ((if out \<noteq> [] then out @ ''/'' else out) @ ''..''))"
proof (cases "out = []")
  case True
  then show ?thesis by (simp add: clean_inv_def)
next
  case False
  from assms False have "last out \<noteq> CHR ''/''" and "\<not> double_slash out"
    by (auto simp: clean_inv_def)
  with False show ?thesis
    by (simp add: clean_inv_def double_slash_append nth_append)
qed

lemma clean_inv_element:
  assumes "clean_inv rooted out dotdot" and "c \<noteq> CHR ''/''" and "CHR ''/'' \<notin> set el"
  shows "clean_inv rooted
           ((if rooted \<and> length out \<noteq> 1 \<or> \<not> rooted \<and> length out \<noteq> 0 then out @ ''/'' else out)
            @ c # el) dotdot"
proof -
  from assms(2,3) have el: "\<not> double_slash (c # el)"
    by (intro no_slash_no_double) simp
  from assms(1) have nd: "\<not> double_slash out" and le: "dotdot \<le> length out"
    and r: "rooted \<longrightarrow> dotdot = 1 \<and> take 1 out = ''/''"
    and nr: "\<not> rooted \<longrightarrow> dotdot = 0 \<or> out ! (dotdot - 1) \<noteq> CHR ''/''"
    and l: "out \<noteq> [] \<and> last out = CHR ''/'' \<longrightarrow> rooted \<and> length out = 1"
    by (simp_all add: clean_inv_def)
  show ?thesis
  proof (cases "rooted \<and> length out \<noteq> 1 \<or> \<not> rooted \<and> length out \<noteq> 0")
    case True
    with l r have ne: "out \<noteq> []" and nl: "last out \<noteq> CHR ''/''" by auto
    have a: "\<not> double_slash ((out @ ''/'') @ c # el)"
      using nd el nl ne assms(2) by (simp add: double_slash_append)
    have d: "\<not> rooted \<longrightarrow> dotdot = 0 \<or> ((out @ ''/'') @ c # el) ! (dotdot - 1) \<noteq> CHR ''/''"
      using nr le ne by (auto simp: nth_append)
    have c: "rooted \<longrightarrow> dotdot = 1 \<and> take 1 ((out @ ''/'') @ c # el) = ''/''"
      using r ne by (cases out) auto
    have e: "last ((out @ ''/'') @ c # el) \<noteq> CHR ''/''"
      using assms(2,3) by (cases el rule: rev_cases) auto
    from a c d e le True show ?thesis
      unfolding clean_inv_def by auto
  next
    case False
    have a: "\<not> double_slash (out @ c # el)"
      using nd el assms(2) by (simp add: double_slash_append)
    have d: "\<not> rooted \<longrightarrow> dotdot = 0 \<or> (out @ c # el) ! (dotdot - 1) \<noteq> CHR ''/''"
      using nr le False by (auto simp: nth_append)
    have c: "rooted \<longrightarrow> dotdot = 1 \<and> take 1 (out @ c # el) = ''/''"
      using r by (cases out) auto
    have e: "last (out @ c # el) \<noteq> CHR ''/''"
      using assms(2,3) by (cases el rule: rev_cases) auto
    from a c d e le False show ?thesis
      unfolding clean_inv_def by auto
  qed
qed

lemma Clean_loop_inv:
  "clean_inv rooted out dotdot \<Longrightarrow> \<exists>d. clean_inv rooted (Clean_loop rooted p out dotdot) d"
proof (induction rooted p out dotdot rule: Clean_loop.induct)
  case (1 rooted out dotdot)
  then show ?case by (auto simp: Clean_loop.simps)
next
  case (2 rooted c p out dotdot)
  note inv = "2.prems"
  let ?dot = "c = CHR ''.'' \<and> (p = [] \<or> hd p = CHR ''/'')"
  let ?dotdot = "c = CHR ''.'' \<and> hd p = CHR ''.'' \<and> (tl p = [] \<or> hd (tl p) = CHR ''/'')"
  consider (slash) "c = CHR ''/''"
    | (dot) "c \<noteq> CHR ''/''" "?dot"
    | (up) "c \<noteq> CHR ''/''" "\<not> ?dot" "?dotdot" "dotdot < length out"
    | (app) "c \<noteq> CHR ''/''" "\<not> ?dot" "?dotdot" "\<not> dotdot < length out" "\<not> rooted"
    | (stay) "c \<noteq> CHR ''/''" "\<not> ?dot" "?dotdot" "\<not> dotdot < length out" "\<not> \<not> rooted"
    | (el) "c \<noteq> CHR ''/''" "\<not> ?dot" "\<not> ?dotdot"
    by blast
  then show ?case
  proof cases
    case slash
    then have eq: "Clean_loop rooted (c # p) out dotdot = Clean_loop rooted p out dotdot"
      by (subst Clean_loop.simps) (simp only: simp_thms if_True if_False)
    from "2.IH"(1) [OF slash inv] show ?thesis
      unfolding eq .
  next
    case dot
    then have eq: "Clean_loop rooted (c # p) out dotdot = Clean_loop rooted p out dotdot"
      by (subst Clean_loop.simps) (simp only: simp_thms if_True if_False)
    from "2.IH"(2) [OF dot inv] show ?thesis
      unfolding eq .
  next
    case up
    then have eq: "Clean_loop rooted (c # p) out dotdot
        = Clean_loop rooted (tl p) (take (backtrack out dotdot (length out - 1)) out) dotdot"
      by (subst Clean_loop.simps) (simp only: simp_thms if_True if_False)
    from "2.IH"(3) [OF up clean_inv_backtrack [OF inv up(4)]] show ?thesis
      unfolding eq .
  next
    case app
    then have eq: "Clean_loop rooted (c # p) out dotdot
        = Clean_loop rooted (tl p) ((if out \<noteq> [] then out @ ''/'' else out) @ ''..'')
            (length ((if out \<noteq> [] then out @ ''/'' else out) @ ''..''))"
      by (subst Clean_loop.simps) (simp only: simp_thms if_True if_False)
    from inv app(5) have "clean_inv False out dotdot" by simp
    from clean_inv_dotdot [OF this] app(5)
    have "clean_inv rooted ((if out \<noteq> [] then out @ ''/'' else out) @ ''..'')
            (length ((if out \<noteq> [] then out @ ''/'' else out) @ ''..''))"
      by simp
    from "2.IH"(4) [OF app this] show ?thesis
      unfolding eq .
  next
    case stay
    then have eq: "Clean_loop rooted (c # p) out dotdot = Clean_loop rooted (tl p) out dotdot"
      by (subst Clean_loop.simps) (simp only: simp_thms if_True if_False)
    from "2.IH"(5) [OF stay inv] show ?thesis
      unfolding eq .
  next
    case el
    then have eq: "Clean_loop rooted (c # p) out dotdot
        = Clean_loop rooted (dropWhile (\<lambda>x. x \<noteq> CHR ''/'') p)
            ((if rooted \<and> length out \<noteq> 1 \<or> \<not> rooted \<and> length out \<noteq> 0 then out @ ''/''
              else out)
             @ c # takeWhile (\<lambda>x. x \<noteq> CHR ''/'') p)
            dotdot"
      by (subst Clean_loop.simps) (simp only: simp_thms if_True if_False)
    have "CHR ''/'' \<notin> set (takeWhile (\<lambda>x. x \<noteq> CHR ''/'') p)"
      by (auto dest: set_takeWhileD)
    from "2.IH"(6) [OF el clean_inv_element [OF inv el(1) this]] show ?thesis
      unfolding eq .
  qed
qed

lemma Clean_no_double_slash: "\<not> double_slash (Clean pth)"
proof (cases pth)
  case Nil
  then show ?thesis by (simp add: Clean_def)
next
  case (Cons c p)
  have "clean_inv True ''/'' 1" and "clean_inv False [] 0"
    by (simp_all add: clean_inv_def)
  from Clean_loop_inv [OF this(1), of "tl pth"] Clean_loop_inv [OF this(2), of pth]
  have r: "\<not> double_slash (Clean_loop True (tl pth) ''/'' 1)"
    and n: "\<not> double_slash (Clean_loop False pth [] 0)"
    by (auto simp: clean_inv_def)
  from r n Cons show ?thesis
    by (simp add: Clean_def Let_def)
qed

lemma Clean_rooted: "HasPrefix pth ''/'' \<Longrightarrow> HasPrefix (Clean pth) ''/''"
proof -
  assume h: "HasPrefix pth ''/''"
  then have ne: "pth \<noteq> []" and hd: "hd pth = CHR ''/''"
    by (cases pth; simp add: HasPrefix_def)+
  have "clean_inv True ''/'' 1"
    by (simp add: clean_inv_def)
  from Clean_loop_inv [OF this, of "tl pth"]
  have t: "take 1 (Clean_loop True (tl pth) ''/'' 1) = ''/''"
    by (auto simp: clean_inv_def)
  then have "Clean_loop True (tl pth) ''/'' 1 \<noteq> []" by auto
  with ne hd t show ?thesis
    by (simp add: Clean_def Let_def HasPrefix_def)
qed

lemma Join_rooted: "HasPrefix p ''/'' \<Longrightarrow> HasPrefix (Join [p, k]) ''/''"
proof -
  assume h: "HasPrefix p ''/''"
  then have ne: "p \<noteq> []"
    by (cases p) (simp_all add: HasPrefix_def)
  from h ne have "HasPrefix (p @ ''/'' @ k) ''/''"
    by (cases p) (simp_all add: HasPrefix_def)
  from Clean_rooted [OF this] ne show ?thesis
    by (simp add: Join_def)
qed

lemma Join_no_double_slash: "\<not> double_slash (Join elem)"
  by (simp add: Join_def Clean_no_double_slash)

subsection \<open>What \<open>getConfig\<close> leaves unchanged\<close>

lemma getConfig_backend: "backend (snd (getConfig sdk e w)) = backend w"
  by (simp add: getConfig_def Let_def)

lemma getConfig_files: "files (snd (getConfig sdk e w)) = files w"
  by (simp add: getConfig_def Let_def)

lemma getConfig_creatable: "creatable (snd (getConfig sdk e w)) = creatable w"
  by (simp add: getConfig_def Let_def)

subsection \<open>Pull and Push join the key with the location path\<close>

text \<open>
  Claim C2, as stated, does not hold: for the location path \<open>/prefix\<close>, \<open>Pull\<close> with
  source \<open>a/b.txt\<close> does not use the key \<open>prefix/a/b.txt\<close>. \<open>path.Join\<close> keeps the
  leading slash of the location path, and the download request carries the key
  \<open>/prefix/a/b.txt\<close>.
\<close>

theorem Pull_key_keeps_leading_slash:
  "Parse ''s3://bucket/prefix'' = Inr demo_location
   \<and> Path demo_location = ''/prefix''
   \<and> calls (snd (Pull demo_sdk (New demo_location []) ''a/b.txt'' ''/tmp/out'' demo_world))
       = [LoadDefaultConfig_call [WithEndpointResolverWithOptions []],
          Download_call [] ''bucket'' ''/prefix/a/b.txt'']
   \<and> ''/prefix/a/b.txt'' \<noteq> ''prefix/a/b.txt''"
  by code_simp

text \<open>
  Claim C2, amended: \<open>Pull\<close> and \<open>Push\<close> join the client's location path with the
  relative key argument by \<open>path.Join\<close>. When the configuration resolves, \<open>Pull\<close> to a
  file that can be created sends one download request, for the bucket of the location
  and the key \<open>Join [location path, source]\<close>, and \<open>Push\<close> of a readable file sends one
  upload request for the key \<open>Join [location path, target]\<close>. The joined key never
  holds a double slash, and the leading slash of a location path is kept: a location
  path that starts with a slash gives a key that starts with a slash, and the
  location path \<open>/prefix\<close> with the source \<open>a/b.txt\<close> gives the key
  \<open>/prefix/a/b.txt\<close>.
\<close>

theorem key_composition:
  assumes "fst (getConfig sdk (endpoint s) w) = Inr cfg"
  shows "(creatable w file \<longrightarrow>
            calls (snd (Pull sdk s key file w))
              = calls (snd (getConfig sdk (endpoint s) w))
                @ [Download_call cfg (Hostname (url s)) (Join [Path (url s), key])])
       \<and> (files w file = Some f \<longrightarrow>
            calls (snd (Push sdk s key file w))
              = calls (snd (getConfig sdk (endpoint s) w))
                @ [Upload_call cfg (Hostname (url s)) (Join [Path (url s), key]) f])
       \<and> \<not> double_slash (Join [Path (url s), key])
       \<and> (HasPrefix (Path (url s)) ''/'' \<longrightarrow> HasPrefix (Join [Path (url s), key]) ''/'')
       \<and> Join [''/prefix'', ''a/b.txt''] = ''/prefix/a/b.txt''"
proof -
  obtain w1 where g: "getConfig sdk (endpoint s) w = (Inr cfg, w1)"
    using assms by (cases "getConfig sdk (endpoint s) w") simp
  have b: "files w1 = files w" and c: "creatable w1 = creatable w"
    using getConfig_files [of sdk "endpoint s" w] getConfig_creatable [of sdk "endpoint s" w] g
    by simp_all
  have pull: "creatable w file \<longrightarrow>
            calls (snd (Pull sdk s key file w))
              = calls w1 @ [Download_call cfg (Hostname (url s)) (Join [Path (url s), key])]"
    by (simp add: Pull_def g c Let_def split: prod.splits sum.splits)
  have push: "files w file = Some f \<longrightarrow>
            calls (snd (Push sdk s key file w))
              = calls w1 @ [Upload_call cfg (Hostname (url s)) (Join [Path (url s), key]) f]"
    by (simp add: Push_def g b Let_def split: prod.splits option.splits)
  have ex: "Join [''/prefix'', ''a/b.txt''] = ''/prefix/a/b.txt''"
    by code_simp
  from pull push ex g Join_no_double_slash [of "[Path (url s), key]"]
    Join_rooted [of "Path (url s)" key]
  show ?thesis
    by simp
qed

theorem key_composition_witness:
  "fst (getConfig demo_sdk (endpoint (New demo_location [])) demo_world) = Inr []
   \<and> creatable demo_world ''/tmp/out''
   \<and> calls (snd (Pull demo_sdk (New demo_location []) ''a//b.txt'' ''/tmp/out'' demo_world))
       = [LoadDefaultConfig_call [WithEndpointResolverWithOptions []],
          Download_call [] ''bucket'' ''/prefix/a/b.txt'']
   \<and> files demo_world ''/tmp/in'' = Some ''data''
   \<and> calls (snd (Push demo_sdk (New demo_location []) ''a//b.txt'' ''/tmp/in'' demo_world))
       = [LoadDefaultConfig_call [WithEndpointResolverWithOptions []],
          Upload_call [] ''bucket'' ''/prefix/a/b.txt'' ''data'']"
proof -
  have g: "fst (getConfig demo_sdk (endpoint (New demo_location [])) demo_world) = Inr []"
    by code_simp
  have c: "calls (snd (getConfig demo_sdk (endpoint (New demo_location [])) demo_world))
             = [LoadDefaultConfig_call [WithEndpointResolverWithOptions []]]"
    by code_simp
  have h: "Hostname (url (New demo_location [])) = ''bucket''"
    by code_simp
  have j: "Join [Path (url (New demo_location [])), ''a//b.txt''] = ''/prefix/a/b.txt''"
    by code_simp
  have cr: "creatable demo_world ''/tmp/out''"
    by (simp add: demo_world_def)
  have fi: "files demo_world ''/tmp/in'' = Some ''data''"
    by (simp add: demo_world_def)
  have p1: "calls (snd (Pull demo_sdk (New demo_location []) ''a//b.txt'' ''/tmp/out'' demo_world))
       = [LoadDefaultConfig_call [WithEndpointResolverWithOptions []],
          Download_call [] ''bucket'' ''/prefix/a/b.txt'']"
    using key_composition [OF g, of "''/tmp/out''" "''a//b.txt''"] cr c h j by simp
  have p2: "calls (snd (Push demo_sdk (New demo_location []) ''a//b.txt'' ''/tmp/in'' demo_world))
       = [LoadDefaultConfig_call [WithEndpointResolverWithOptions []],
          Upload_call [] ''bucket'' ''/prefix/a/b.txt'' ''data'']"
    using key_composition [OF g, of "''/tmp/in''" "''a//b.txt''" "''data''"] fi c h j by simp
  from g cr fi p1 p2 show ?thesis by simp
qed

subsection \<open>ReadDir and Remove take their argument as it is\<close>

text \<open>
  Claim C3: \<open>ReadDir\<close> and \<open>Remove\<close> use their argument literally. When the
  configuration resolves, \<open>ReadDir\<close> sends one listing request whose prefix is
  \<open>dirname\<close> unchanged, and \<open>Remove\<close> sends one delete request for exactly the key
  \<open>target\<close>, both in the bucket of the location; the backend after \<open>Remove\<close> is the
  one the SDK returns for that delete. Neither operation depends on the path of the
  location.
\<close>

theorem ReadDir_Remove_literal_keys:
  assumes "fst (getConfig sdk (endpoint s) w) = Inr cfg"
  shows "calls (snd (ReadDir sdk s dirname w))
           = calls (snd (getConfig sdk (endpoint s) w))
             @ [ListObjectsV2_call cfg (Hostname (url s)) dirname]
       \<and> calls (snd (Remove sdk s target w))
           = calls (snd (getConfig sdk (endpoint s) w))
             @ [DeleteObject_call cfg (Hostname (url s)) target]
       \<and> backend (snd (Remove sdk s target w))
           = snd (DeleteObject sdk cfg (Hostname (url s)) target (backend w))
       \<and> ReadDir sdk (s\<lparr>url := (url s)\<lparr>Path := p\<rparr>\<rparr>) dirname w = ReadDir sdk s dirname w
       \<and> Remove sdk (s\<lparr>url := (url s)\<lparr>Path := p\<rparr>\<rparr>) target w = Remove sdk s target w"
proof -
  obtain w1 where g: "getConfig sdk (endpoint s) w = (Inr cfg, w1)"
    using assms by (cases "getConfig sdk (endpoint s) w") simp
  have b: "backend w1 = backend w"
    using getConfig_backend [of sdk "endpoint s" w] g by simp
  have c1: "calls (snd (ReadDir sdk s dirname w))
              = calls w1 @ [ListObjectsV2_call cfg (Hostname (url s)) dirname]"
    by (simp add: ReadDir_def g Let_def split: sum.splits)
  have c2: "calls (snd (Remove sdk s target w))
              = calls w1 @ [DeleteObject_call cfg (Hostname (url s)) target]"
    by (simp add: Remove_def g Let_def split: prod.splits option.splits)
  have c3: "backend (snd (Remove sdk s target w))
              = snd (DeleteObject sdk cfg (Hostname (url s)) target (backend w))"
    by (simp add: Remove_def g b Let_def split: prod.splits option.splits)
  have h: "Hostname (url (s\<lparr>url := (url s)\<lparr>Path := p\<rparr>\<rparr>)) = Hostname (url s)"
    by (simp add: Hostname_def)
  have e: "endpoint (s\<lparr>url := (url s)\<lparr>Path := p\<rparr>\<rparr>) = endpoint s"
    by simp
  have c4: "ReadDir sdk (s\<lparr>url := (url s)\<lparr>Path := p\<rparr>\<rparr>) dirname w = ReadDir sdk s dirname w"
    unfolding ReadDir_def h e by (rule refl)
  have c5: "Remove sdk (s\<lparr>url := (url s)\<lparr>Path := p\<rparr>\<rparr>) target w = Remove sdk s target w"
    unfolding Remove_def h e by (rule refl)
  from c1 c2 c3 c4 c5 g show ?thesis by simp
qed

theorem ReadDir_Remove_literal_keys_witness:
  "fst (getConfig demo_sdk (endpoint (New demo_location [])) demo_world) = Inr []
   \<and> calls (snd (ReadDir demo_sdk (New demo_location []) ''a/'' demo_world))
       = [LoadDefaultConfig_call [WithEndpointResolverWithOptions []],
          ListObjectsV2_call [] ''bucket'' ''a/'']
   \<and> calls (snd (Remove demo_sdk (New demo_location []) ''x'' demo_world))
       = [LoadDefaultConfig_call [WithEndpointResolverWithOptions []],
          DeleteObject_call [] ''bucket'' ''x'']
   \<and> backend (snd (Remove demo_sdk (New demo_location []) ''x'' demo_world))
       = [((''bucket'', ''/prefix/a/b.txt''), ''hello'')]"
proof -
  have g: "fst (getConfig demo_sdk (endpoint (New demo_location [])) demo_world) = Inr []"
    by code_simp
  have c: "calls (snd (getConfig demo_sdk (endpoint (New demo_location [])) demo_world))
             = [LoadDefaultConfig_call [WithEndpointResolverWithOptions []]]"
    by code_simp
  have h: "Hostname (url (New demo_location [])) = ''bucket''"
    by code_simp
  have d: "snd (DeleteObject demo_sdk [] ''bucket'' ''x'' (backend demo_world))
             = [((''bucket'', ''/prefix/a/b.txt''), ''hello'')]"
    by code_simp
  show ?thesis
    using g ReadDir_Remove_literal_keys [OF g, of "''a/''" "''x''"] c h d by simp
qed

section \<open>Results of the operations\<close>

text \<open>
  Claim C6: \<open>Push\<close> reports 0 bytes on success. Whenever \<open>Push\<close> returns without
  error the count is 0; and when the configuration resolves, the source file is
  readable and the upload succeeds, \<open>Push\<close> does return \<open>(0, nil)\<close>, whatever the size
  of the content.
\<close>

theorem Push_returns_zero:
  "(\<forall>n. fst (Push sdk s target source w) = Inr n \<longrightarrow> n = 0)
   \<and> (\<forall>cfg f. fst (getConfig sdk (endpoint s) w) = Inr cfg \<and> files w source = Some f
         \<and> fst (Upload sdk cfg (Hostname (url s)) (Join [Path (url s), target]) f (backend w))
             = None
       \<longrightarrow> fst (Push sdk s target source w) = Inr 0)"
proof -
  obtain r w1 where g: "getConfig sdk (endpoint s) w = (r, w1)"
    by (cases "getConfig sdk (endpoint s) w")
  have b: "backend w1 = backend w" and f: "files w1 = files w"
    using getConfig_backend [of sdk "endpoint s" w] getConfig_files [of sdk "endpoint s" w] g
    by simp_all
  show ?thesis
    by (auto simp: Push_def g b f Let_def split: sum.splits option.splits prod.splits)
qed

theorem Push_returns_zero_witness:
  "fst (getConfig demo_sdk (endpoint (New demo_location [])) demo_world) = Inr []
   \<and> files demo_world ''/tmp/in'' = Some ''data''
   \<and> fst (Upload demo_sdk [] (Hostname (url (New demo_location [])))
            (Join [Path (url (New demo_location [])), ''t'']) ''data'' (backend demo_world)) = None
   \<and> fst (Push demo_sdk (New demo_location []) ''t'' ''/tmp/in'' demo_world) = Inr 0"
proof -
  have g: "fst (getConfig demo_sdk (endpoint (New demo_location [])) demo_world) = Inr []"
    by code_simp
  have f: "files demo_world ''/tmp/in'' = Some ''data''"
    by (simp add: demo_world_def)
  have u: "fst (Upload demo_sdk [] (Hostname (url (New demo_location [])))
            (Join [Path (url (New demo_location [])), ''t'']) ''data'' (backend demo_world)) = None"
    by (simp add: demo_sdk_def)
  show ?thesis
    using g f u Push_returns_zero [of demo_sdk "New demo_location []" "''t''" "''/tmp/in''" demo_world]
    by blast
qed

subsection \<open>The entries of a listing\<close>

text \<open>When every listed object carries its key and its time, the loop converts them
  one by one, in order; a nil pointer makes it panic.\<close>

lemma ReadDir_loop_all_present:
  "\<forall>item \<in> set items. Key item \<noteq> None \<and> LastModified item \<noteq> None \<Longrightarrow>
     ReadDir_loop items acc
       = Inr (acc @ map (\<lambda>item. \<lparr>name = the (Key item), lastModified = the (LastModified item),
                                  size' = Size item\<rparr>) items)"
proof (induction items arbitrary: acc)
  case Nil
  then show ?case by simp
next
  case (Cons item items)
  from Cons.prems obtain k t where "Key item = Some k" and "LastModified item = Some t"
    by auto
  moreover from Cons.prems have "\<forall>i \<in> set items. Key i \<noteq> None \<and> LastModified i \<noteq> None"
    by simp
  ultimately show ?case
    using Cons.IH by simp
qed

lemma ReadDir_loop_nil_pointer:
  "\<exists>item \<in> set items. Key item = None \<or> LastModified item = None \<Longrightarrow>
     ReadDir_loop items acc = Inl NilPointerDereference"
  by (induction items arbitrary: acc) (auto split: option.splits)

lemma ReadDir_loop_returns:
  assumes "ReadDir_loop items acc = Inr entries"
  shows "\<forall>item \<in> set items. Key item \<noteq> None \<and> LastModified item \<noteq> None"
proof (rule ccontr)
  assume "\<not> (\<forall>item \<in> set items. Key item \<noteq> None \<and> LastModified item \<noteq> None)"
  then have "\<exists>item \<in> set items. Key item = None \<or> LastModified item = None"
    by auto
  from ReadDir_loop_nil_pointer [OF this, of acc] assms show False
    by simp
qed

text \<open>
  Claim C9: \<open>ReadDir\<close> returns one entry per listed object, in the backend's order.
  When the configuration resolves and the listing call returns \<open>contents\<close>, every
  result that \<open>ReadDir\<close> returns has the length of \<open>contents\<close>, its i-th entry has
  the key, the size and the modification time of the i-th listed object, and every
  entry reports \<open>IsDir() = false\<close> and \<open>Mode() = 0\<close>. \<open>ReadDir\<close> does return such a
  result when every listed object carries a key and a modification time.
\<close>

theorem ReadDir_entries:
  assumes "fst (getConfig sdk (endpoint s) w) = Inr cfg"
    and "ListObjectsV2 sdk cfg (Hostname (url s)) dirname (backend w) = Inr contents"
  shows "(\<forall>entries. fst (ReadDir sdk s dirname w) = Inr entries \<longrightarrow>
            length entries = length contents
            \<and> (\<forall>i < length contents.
                  Key (contents ! i) = Some (s3FileInfo_Name (entries ! i))
                  \<and> Size (contents ! i) = s3FileInfo_Size (entries ! i)
                  \<and> LastModified (contents ! i) = Some (s3FileInfo_ModTime (entries ! i)))
            \<and> (\<forall>e \<in> set entries. \<not> s3FileInfo_IsDir e \<and> s3FileInfo_Mode e = 0))
       \<and> ((\<forall>item \<in> set contents. Key item \<noteq> None \<and> LastModified item \<noteq> None) \<longrightarrow>
            (\<exists>entries. fst (ReadDir sdk s dirname w) = Inr entries))"
proof -
  obtain w1 where g: "getConfig sdk (endpoint s) w = (Inr cfg, w1)"
    using assms(1) by (cases "getConfig sdk (endpoint s) w") simp
  have b: "backend w1 = backend w"
    using getConfig_backend [of sdk "endpoint s" w] g by simp
  let ?conv = "\<lambda>item. \<lparr>name = the (Key item), lastModified = the (LastModified item),
                         size' = Size item\<rparr>"
  have r: "fst (ReadDir sdk s dirname w) = ReadDir_loop contents []"
    by (simp add: ReadDir_def g b assms(2) Let_def)
  have ret: "length entries = length contents
            \<and> (\<forall>i < length contents.
                  Key (contents ! i) = Some (s3FileInfo_Name (entries ! i))
                  \<and> Size (contents ! i) = s3FileInfo_Size (entries ! i)
                  \<and> LastModified (contents ! i) = Some (s3FileInfo_ModTime (entries ! i)))
            \<and> (\<forall>e \<in> set entries. \<not> s3FileInfo_IsDir e \<and> s3FileInfo_Mode e = 0)"
    if e: "fst (ReadDir sdk s dirname w) = Inr entries" for entries
  proof -
    from e r have l: "ReadDir_loop contents [] = Inr entries" by simp
    from ReadDir_loop_returns [OF l]
    have p: "\<forall>item \<in> set contents. Key item \<noteq> None \<and> LastModified item \<noteq> None" .
    from ReadDir_loop_all_present [OF p, of "[]"] l
    have m: "entries = map ?conv contents" by simp
    have f: "\<forall>i < length contents.
               Key (contents ! i) = Some (s3FileInfo_Name (map ?conv contents ! i))
               \<and> Size (contents ! i) = s3FileInfo_Size (map ?conv contents ! i)
               \<and> LastModified (contents ! i) = Some (s3FileInfo_ModTime (map ?conv contents ! i))"
      using p by (auto simp: s3FileInfo_Name_def s3FileInfo_Size_def s3FileInfo_ModTime_def)
    from f show ?thesis
      unfolding m by (simp add: s3FileInfo_IsDir_def s3FileInfo_Mode_def)
  qed
  have tot: "\<exists>entries. fst (ReadDir sdk s dirname w) = Inr entries"
    if p: "\<forall>item \<in> set contents. Key item \<noteq> None \<and> LastModified item \<noteq> None"
    using ReadDir_loop_all_present [OF p, of "[]"] r by simp
  from ret tot show ?thesis by blast
qed

theorem ReadDir_entries_witness:
  "fst (getConfig demo_sdk (endpoint (New demo_location [])) demo_world) = Inr []
   \<and> ListObjectsV2 demo_sdk [] (Hostname (url (New demo_location []))) [] (backend demo_world)
       = Inr [\<lparr>Key = Some ''/prefix/a/b.txt'', LastModified = Some 0, Size = 5\<rparr>,
              \<lparr>Key = Some ''x'', LastModified = Some 0, Size = 2\<rparr>]
   \<and> fst (ReadDir demo_sdk (New demo_location []) [] demo_world)
       = Inr [\<lparr>name = ''/prefix/a/b.txt'', lastModified = 0, size' = 5\<rparr>,
              \<lparr>name = ''x'', lastModified = 0, size' = 2\<rparr>]
   \<and> length [\<lparr>name = ''/prefix/a/b.txt'', lastModified = 0, size' = (5::64 word)\<rparr>,
              \<lparr>name = ''x'', lastModified = 0, size' = 2\<rparr>] = 2
   \<and> \<not> s3FileInfo_IsDir \<lparr>name = ''x'', lastModified = 0, size' = 2\<rparr>
   \<and> s3FileInfo_Mode \<lparr>name = ''x'', lastModified = 0, size' = 2\<rparr> = 0"
proof -
  have g: "fst (getConfig demo_sdk (endpoint (New demo_location [])) demo_world) = Inr []"
    by code_simp
  have l: "ListObjectsV2 demo_sdk [] (Hostname (url (New demo_location []))) []
             (backend demo_world)
           = Inr [\<lparr>Key = Some ''/prefix/a/b.txt'', LastModified = Some 0, Size = 5\<rparr>,
                  \<lparr>Key = Some ''x'', LastModified = Some 0, Size = 2\<rparr>]"
    by code_simp
  have e: "fst (ReadDir demo_sdk (New demo_location []) [] demo_world)
       = Inr [\<lparr>name = ''/prefix/a/b.txt'', lastModified = 0, size' = 5\<rparr>,
              \<lparr>name = ''x'', lastModified = 0, size' = 2\<rparr>]"
    by code_simp
  from ReadDir_entries [OF g l] e g l show ?thesis
    by simp
qed

section \<open>Endpoint normalisation\<close>

text \<open>
  Claim C5: \<open>getEndpoint\<close> is a function of the endpoint string alone. It maps
  \<open>http://127.0.0.1:9000\<close> to \<open>http://localhost:9000\<close> and \<open>http://127.0.0.1\<close> to
  \<open>http://localhost\<close>; an endpoint that parses to a host name other than \<open>127.0.0.1\<close>
  is returned unchanged, and so is an endpoint that does not parse.
\<close>

theorem getEndpoint_normalisation:
  "getEndpoint ''http://127.0.0.1:9000'' = ''http://localhost:9000''
   \<and> getEndpoint ''http://127.0.0.1'' = ''http://localhost''
   \<and> (\<forall>e u. Parse e = Inr u \<and> Hostname u \<noteq> ''127.0.0.1'' \<longrightarrow> getEndpoint e = e)
   \<and> (\<forall>e err. Parse e = Inl err \<longrightarrow> getEndpoint e = e)"
proof -
  have a: "getEndpoint ''http://127.0.0.1:9000'' = ''http://localhost:9000''"
    by code_simp
  have b: "getEndpoint ''http://127.0.0.1'' = ''http://localhost''"
    by code_simp
  have c: "\<forall>e u. Parse e = Inr u \<and> Hostname u \<noteq> ''127.0.0.1'' \<longrightarrow> getEndpoint e = e"
    by (simp add: getEndpoint_def)
  have d: "\<forall>e err. Parse e = Inl err \<longrightarrow> getEndpoint e = e"
    by (simp add: getEndpoint_def)
  from a b c d show ?thesis by blast
qed

theorem getEndpoint_normalisation_witness:
  "Parse ''https://s3.example.com:9000/x''
     = Inr (emptyURL\<lparr>Scheme := ''https'', Host := ''s3.example.com:9000'', Path := ''/x''\<rparr>)
   \<and> Hostname (emptyURL\<lparr>Scheme := ''https'', Host := ''s3.example.com:9000'', Path := ''/x''\<rparr>)
       \<noteq> ''127.0.0.1''
   \<and> getEndpoint ''https://s3.example.com:9000/x'' = ''https://s3.example.com:9000/x''
   \<and> Parse ''http://127.0.0.1:x'' = Inl (InvalidPort '':x'')
   \<and> getEndpoint ''http://127.0.0.1:x'' = ''http://127.0.0.1:x''"
proof -
  have p: "Parse ''https://s3.example.com:9000/x''
     = Inr (emptyURL\<lparr>Scheme := ''https'', Host := ''s3.example.com:9000'', Path := ''/x''\<rparr>)"
    by code_simp
  have h: "Hostname (emptyURL\<lparr>Scheme := ''https'', Host := ''s3.example.com:9000'', Path := ''/x''\<rparr>)
       \<noteq> ''127.0.0.1''"
    by code_simp
  have q: "Parse ''http://127.0.0.1:x'' = Inl (InvalidPort '':x'')"
    by code_simp
  show ?thesis
    using p h q getEndpoint_normalisation by blast
qed

end
